theory Spec2Isabelle
  imports Complex_Main "HOL-Library.Word"
begin

section \<open>Shared playback state\<close>

text \<open>
  The globals of \<^verbatim>\<open>main.cpp\<close> (lines 50-53): \<^verbatim>\<open>bool playing\<close>, \<^verbatim>\<open>int currentSong\<close>,
  \<^verbatim>\<open>int songCount\<close> and \<^verbatim>\<open>vector<string> songList\<close>. The two \<^verbatim>\<open>int\<close>s are
  modelled as unbounded integers: every value the control surface computes from an
  index inside \<open>[0, songCount)\<close> is again between \<open>-1\<close> and \<open>songCount\<close>, so the
  32-bit range is never left (lemma \<open>control_surface_no_overflow\<close> below).
\<close>

record player =
  playing :: bool
  currentSong :: int
  songCount :: int
  songList :: "string list"

datatype fault =
    DivideByZero            \<comment> \<open>\<^verbatim>\<open>% songCount\<close> with \<^verbatim>\<open>songCount == 0\<close>\<close>
  | IntOutOfRange           \<comment> \<open>\<^verbatim>\<open>int(double)\<close> of a value no \<^verbatim>\<open>int\<close> holds\<close>
  | VectorIndexOutOfRange   \<comment> \<open>\<^verbatim>\<open>songList[currentSong]\<close> outside the vector\<close>
  | StringIndexOutOfRange   \<comment> \<open>\<^verbatim>\<open>songList[currentSong][i]\<close> outside the string\<close>
  | GetcBlocked             \<comment> \<open>\<^verbatim>\<open>blueTooth.getc()\<close> waiting for a byte that is not there\<close>

definition bindR :: "fault + 'a \<Rightarrow> ('a \<Rightarrow> fault + 'b) \<Rightarrow> fault + 'b" where
  "bindR m f = (case m of Inl e \<Rightarrow> Inl e | Inr x \<Rightarrow> f x)"

section \<open>Control surface\<close>

text \<open>\<^verbatim>\<open>nextSong()\<close>, lines 63-74.\<close>

definition nextSong :: "player \<Rightarrow> player" where
  "nextSong s =
     (if currentSong s = songCount s - 1
      then s\<lparr>currentSong := 0\<rparr>
      else s\<lparr>currentSong := currentSong s + 1\<rparr>)"

text \<open>\<^verbatim>\<open>prevSong()\<close>, lines 81-92.\<close>

definition prevSong :: "player \<Rightarrow> player" where
  "prevSong s =
     (if currentSong s = 0
      then s\<lparr>currentSong := songCount s - 1\<rparr>
      else s\<lparr>currentSong := currentSong s - 1\<rparr>)"

text \<open>\<^verbatim>\<open>playSong()\<close>, lines 100-104.\<close>

definition playSong :: "player \<Rightarrow> player" where
  "playSong s = s\<lparr>playing := \<not> playing s\<rparr>"

text \<open>
  The conversion \<^verbatim>\<open>int(d)\<close> of a \<^verbatim>\<open>double\<close> discards the fractional part (rounds
  towards zero) and is undefined when the result does not fit a 32-bit \<^verbatim>\<open>int\<close>.
\<close>

definition int_of_double :: "real \<Rightarrow> fault + int" where
  "int_of_double d =
     (let t = (if 0 \<le> d then \<lfloor>d\<rfloor> else \<lceil>d\<rceil>)
      in if - (2 ^ 31) \<le> t \<and> t < 2 ^ 31 then Inr t else Inl IntOutOfRange)"

text \<open>
  The C++ operator \<^verbatim>\<open>%\<close> on \<^verbatim>\<open>int\<close>: the quotient is truncated towards zero (the
  rule of C++11, and what the ARM compilers for this target do), so the remainder takes
  the sign of the dividend. Division by zero is undefined.
\<close>

definition c_rem :: "int \<Rightarrow> int \<Rightarrow> fault + int" where
  "c_rem a b = (if b = 0 then Inl DivideByZero else Inr (sgn a * (\<bar>a\<bar> mod \<bar>b\<bar>)))"

text \<open>
  \<^verbatim>\<open>shuffleSong()\<close>, lines 113-119. The three arguments are what
  \<^verbatim>\<open>acc.readXYZGravity(&x,&y,&z)\<close> stores; the \<^verbatim>\<open>double\<close> arithmetic
  \<^verbatim>\<open>100000 * (x + y + z)\<close> is taken as exact arithmetic on the reals.
\<close>

definition shuffleSong :: "real \<times> real \<times> real \<Rightarrow> player \<Rightarrow> fault + player" where
  "shuffleSong acc s =
     (case acc of (x, y, z) \<Rightarrow>
        bindR (int_of_double (100000 * (x + y + z))) (\<lambda>e.
        bindR (c_rem e (songCount s)) (\<lambda>r.
        Inr (s\<lparr>currentSong := r\<rparr>))))"

text \<open>
  Sequences of \<^verbatim>\<open>nextSong\<close>/\<^verbatim>\<open>prevSong\<close> calls (the push-button handlers
  \<^verbatim>\<open>nextInt\<close> and \<^verbatim>\<open>prevInt\<close>, lines 321-332, or remote commands 2 and 3), with the
  state after every call.
\<close>

datatype nav = Next | Prev

fun apply_nav :: "nav \<Rightarrow> player \<Rightarrow> player" where
  "apply_nav Next s = nextSong s"
| "apply_nav Prev s = prevSong s"

fun nav_trace :: "nav list \<Rightarrow> player \<Rightarrow> player list" where
  "nav_trace [] s = []"
| "nav_trace (c # cs) s = apply_nav c s # nav_trace cs (apply_nav c s)"

definition in_range :: "player \<Rightarrow> bool" where
  "in_range s = (0 \<le> currentSong s \<and> currentSong s < songCount s)"

section \<open>Remote protocol task\<close>

text \<open>
  \<^verbatim>\<open>BluetoothThread\<close>, lines 209-278. Besides the shared state the task owns
  \<^verbatim>\<open>previousSongBLE\<close>; the serial link is the list \<open>rx\<close> of bytes still to be read and
  the list \<open>tx\<close> of bytes written so far. One pass of the task's loop is modelled as
  running without interference from the other tasks and the button handlers.
\<close>

record ble =
  shared :: player
  previousSongBLE :: int
  rx :: "char list"
  tx :: "char list"

text \<open>Line 212: the state in which the task enters its loop.\<close>

definition BluetoothThread_init :: "player \<Rightarrow> char list \<Rightarrow> ble" where
  "BluetoothThread_init s inbound = \<lparr>shared = s, previousSongBLE = 0, rx = inbound, tx = []\<rparr>"

definition putc :: "char \<Rightarrow> ble \<Rightarrow> ble" where
  "putc c w = w\<lparr>tx := tx w @ [c]\<rparr>"

definition readable :: "ble \<Rightarrow> bool" where
  "readable w = (rx w \<noteq> [])"

text \<open>\<^verbatim>\<open>blueTooth.getc()\<close> takes the next byte, and waits when there is none.\<close>

definition getc :: "ble \<Rightarrow> fault + (char \<times> ble)" where
  "getc w = (case rx w of [] \<Rightarrow> Inl GetcBlocked | c # cs \<Rightarrow> Inr (c, w\<lparr>rx := cs\<rparr>))"

text \<open>\<^verbatim>\<open>songList[currentSong]\<close>: \<^verbatim>\<open>vector::operator[]\<close> is defined inside the vector only.\<close>

definition song_at :: "player \<Rightarrow> fault + string" where
  "song_at s =
     (if 0 \<le> currentSong s \<and> currentSong s < int (length (songList s))
      then Inr (songList s ! nat (currentSong s))
      else Inl VectorIndexOutOfRange)"

text \<open>
  The bound of the loop of lines 228-231, \<^verbatim>\<open>songList[currentSong].size() - 4\<close>:
  \<^verbatim>\<open>size()\<close> is a \<^verbatim>\<open>size_t\<close>, 32 bits without sign on this target, and so is the
  difference.
\<close>

definition name_bound :: "string \<Rightarrow> 32 word" where
  "name_bound name = word_of_nat (length name) - 4"

text \<open>
  The loop of lines 228-231 from counter value \<open>i\<close> on. The comparison
  \<^verbatim>\<open>i < songList[currentSong].size() - 4\<close> converts the \<^verbatim>\<open>int\<close> counter to
  \<^verbatim>\<open>size_t\<close>. Reading \<^verbatim>\<open>name[i]\<close> is defined for \<open>i < size()\<close>; the loop is
  cut at the first index outside the string. (C++11 also defines \<^verbatim>\<open>name[size()]\<close>;
  a loop that reaches \<open>size()\<close> goes on to \<open>size() + 1\<close>, so the result is the same.)
\<close>

function put_chars :: "string \<Rightarrow> nat \<Rightarrow> ble \<Rightarrow> fault + ble" where
  "put_chars name i w =
     (if (word_of_nat i :: 32 word) < name_bound name
      then (if i < length name
            then put_chars name (Suc i) (putc (name ! i) w)
            else Inl StringIndexOutOfRange)
      else Inr w)"
  by pat_completeness auto
termination
  by (relation "measure (\<lambda>(name, i, w). length name - i)") auto

declare put_chars.simps [simp del]

definition newline :: char where
  "newline = CHR 0x0A"

text \<open>Lines 217-236: the status push, given what \<^verbatim>\<open>blueTooth.writeable()\<close> answers.\<close>

definition status_push :: "bool \<Rightarrow> ble \<Rightarrow> fault + ble" where
  "status_push writeable w =
     (if writeable then
        (if previousSongBLE w \<noteq> currentSong (shared w) then
           (let w1 = foldl (\<lambda>v i. putc (''Current Song: '' ! i) v) w [0..<14]
            in bindR (song_at (shared w)) (\<lambda>name.
               bindR (put_chars name 0 w1) (\<lambda>w2.
               Inr ((putc newline w2)\<lparr>previousSongBLE := currentSong (shared w)\<rparr>))))
         else Inr w)
      else Inr w)"

text \<open>
  Lines 238-275: reading a command. The \<^verbatim>\<open>switch\<close> on \<^verbatim>\<open>bnum\<close> is the chain of
  comparisons, its \<^verbatim>\<open>default\<close> the last branch.
\<close>

definition read_commands :: "real \<times> real \<times> real \<Rightarrow> ble \<Rightarrow> fault + ble" where
  "read_commands acc w =
     (if readable w then
        bindR (getc w) (\<lambda>(c0, w0).
          if c0 = CHR ''!'' then
            bindR (getc w0) (\<lambda>(c1, w1).
              if c1 = CHR ''B'' then
                bindR (getc w1) (\<lambda>(bnum, w2).
                bindR (getc w2) (\<lambda>(bhit, w3).
                  if bhit = CHR ''0'' then
                    (if bnum = CHR ''1'' then Inr (w3\<lparr>shared := playSong (shared w3)\<rparr>)
                     else if bnum = CHR ''2'' then Inr (w3\<lparr>shared := nextSong (shared w3)\<rparr>)
                     else if bnum = CHR ''3'' then Inr (w3\<lparr>shared := prevSong (shared w3)\<rparr>)
                     else if bnum = CHR ''4'' then
                       bindR (shuffleSong acc (shared w3)) (\<lambda>s'. Inr (w3\<lparr>shared := s'\<rparr>))
                     else Inr w3)
                  else Inr w3))
              else Inr w1)
          else Inr w0)
      else Inr w)"

text \<open>One pass of the loop of lines 214-277 (the closing \<^verbatim>\<open>Thread::wait(50)\<close> changes nothing).\<close>

definition ble_cycle :: "bool \<Rightarrow> real \<times> real \<times> real \<Rightarrow> ble \<Rightarrow> fault + ble" where
  "ble_cycle writeable acc w = bindR (status_push writeable w) (read_commands acc)"

section \<open>Playback loop\<close>

text \<open>
  One pass of the loop of \<^verbatim>\<open>main\<close>, lines 394-414, as the calls it makes on its
  collaborators, in order, and the shared state it leaves. A \<^verbatim>\<open>FILE *\<close> is
  \<open>None\<close> for the null pointer; \<open>fopen\<close> stands for the file system.
\<close>

datatype event =
    LcdLocate int int
  | LcdPrintf string
  | ThreadWait nat
  | WaverPlay "nat option"
  | Fclose "nat option"

definition main_iteration :: "(string \<Rightarrow> nat option) \<Rightarrow> player \<Rightarrow> fault + (event list \<times> player)" where
  "main_iteration fopen s =
     bindR (song_at s) (\<lambda>name.
       let selectedSong = ''/sd/myMusic/'' @ name;
           wave_file = fopen selectedSong;
           report = (if wave_file = None
                     then [LcdLocate 0 12, LcdPrintf ''file open error!'']
                     else [])
       in Inr (report @ [ThreadWait 1000, WaverPlay wave_file, Fclose wave_file],
               s\<lparr>playing := False\<rparr>))"

section \<open>Properties of the control surface\<close>

lemma nextSong_in_range: "in_range s \<Longrightarrow> in_range (nextSong s)"
  by (auto simp: in_range_def nextSong_def)

lemma prevSong_in_range: "in_range s \<Longrightarrow> in_range (prevSong s)"
  by (auto simp: in_range_def prevSong_def)

lemma apply_nav_in_range: "in_range s \<Longrightarrow> in_range (apply_nav c s)"
  by (cases c) (simp_all add: nextSong_in_range prevSong_in_range)

lemma apply_nav_songCount: "songCount (apply_nav c s) = songCount s"
  by (cases c) (simp_all add: nextSong_def prevSong_def)

lemma control_surface_no_overflow:
  "in_range s \<Longrightarrow> songCount s < 2 ^ 31 \<Longrightarrow>
     - (2 ^ 31) \<le> songCount s - 1 \<and> currentSong s + 1 < 2 ^ 31 \<and> - (2 ^ 31) \<le> currentSong s - 1"
  by (simp add: in_range_def)

text \<open>
  C5. With \<open>songCount > 0\<close> and \<open>0 \<le> currentSong < songCount\<close>, \<^verbatim>\<open>nextSong\<close> sets
  \<open>currentSong\<close> to \<open>(currentSong + 1) mod songCount\<close> and \<^verbatim>\<open>prevSong\<close> sets it to
  \<open>(currentSong - 1 + songCount) mod songCount\<close>; neither changes any other field.
\<close>

theorem advance_retreat_mod:
  assumes "0 < songCount s" and "0 \<le> currentSong s" and "currentSong s < songCount s"
  shows "nextSong s = s\<lparr>currentSong := (currentSong s + 1) mod songCount s\<rparr>
       \<and> prevSong s = s\<lparr>currentSong := (currentSong s - 1 + songCount s) mod songCount s\<rparr>"
proof
  show "nextSong s = s\<lparr>currentSong := (currentSong s + 1) mod songCount s\<rparr>"
  proof (cases "currentSong s = songCount s - 1")
    case True
    then have "(currentSong s + 1) mod songCount s = 0" by simp
    with True show ?thesis by (simp add: nextSong_def)
  next
    case False
    with assms have "(currentSong s + 1) mod songCount s = currentSong s + 1" by simp
    with False show ?thesis by (simp add: nextSong_def)
  qed
next
  show "prevSong s = s\<lparr>currentSong := (currentSong s - 1 + songCount s) mod songCount s\<rparr>"
  proof (cases "currentSong s = 0")
    case True
    then have "currentSong s - 1 + songCount s = songCount s - 1" by simp
    moreover from assms have "(songCount s - 1) mod songCount s = songCount s - 1"
      by (intro mod_pos_pos_trivial) simp_all
    ultimately have "(currentSong s - 1 + songCount s) mod songCount s = songCount s - 1"
      by simp
    with True show ?thesis by (simp add: prevSong_def)
  next
    case False
    with assms have "(currentSong s - 1 + songCount s) mod songCount s = currentSong s - 1"
      by simp
    with False show ?thesis by (simp add: prevSong_def)
  qed
qed

theorem advance_retreat_mod_witness:
  "nextSong \<lparr>playing = True, currentSong = 2, songCount = 3, songList = [''a.wav'', ''b.wav'', ''c.wav'']\<rparr>
     = \<lparr>playing = True, currentSong = 0, songCount = 3, songList = [''a.wav'', ''b.wav'', ''c.wav'']\<rparr>
   \<and> prevSong \<lparr>playing = True, currentSong = 2, songCount = 3, songList = [''a.wav'', ''b.wav'', ''c.wav'']\<rparr>
     = \<lparr>playing = True, currentSong = 1, songCount = 3, songList = [''a.wav'', ''b.wav'', ''c.wav'']\<rparr>"
  using advance_retreat_mod
    [of "\<lparr>playing = True, currentSong = 2, songCount = 3, songList = [''a.wav'', ''b.wav'', ''c.wav'']\<rparr>"]
  by simp

text \<open>
  C6. From any index inside \<open>[0, songCount)\<close> with \<open>songCount > 0\<close>, the state after
  every call of any finite sequence of \<^verbatim>\<open>nextSong\<close>/\<^verbatim>\<open>prevSong\<close> calls has its index
  inside \<open>[0, songCount)\<close> again (and the same \<open>songCount\<close>).
\<close>

theorem nav_trace_in_range:
  assumes "0 < songCount s" and "0 \<le> currentSong s" and "currentSong s < songCount s"
  shows "\<forall>s' \<in> set (nav_trace cs s).
           0 \<le> currentSong s' \<and> currentSong s' < songCount s \<and> songCount s' = songCount s"
proof -
  have "in_range s \<Longrightarrow> \<forall>s' \<in> set (nav_trace cs s). in_range s' \<and> songCount s' = songCount s"
  proof (induction cs arbitrary: s)
    case Nil
    show ?case by simp
  next
    case (Cons c cs)
    have step: "in_range (apply_nav c s)" using Cons.prems by (rule apply_nav_in_range)
    have "\<forall>s' \<in> set (nav_trace cs (apply_nav c s)).
            in_range s' \<and> songCount s' = songCount (apply_nav c s)"
      using step by (rule Cons.IH)
    with step show ?case by (simp add: apply_nav_songCount)
  qed
  with assms show ?thesis by (auto simp: in_range_def)
qed

theorem nav_trace_in_range_witness:
  "map currentSong (nav_trace [Next, Next, Next, Prev]
      \<lparr>playing = False, currentSong = 0, songCount = 3, songList = [''a.wav'', ''b.wav'', ''c.wav'']\<rparr>)
     = [1, 2, 0, 2]
   \<and> list_all (\<lambda>s'. 0 \<le> currentSong s' \<and> currentSong s' < 3 \<and> songCount s' = 3)
       (nav_trace [Next, Next, Next, Prev]
          \<lparr>playing = False, currentSong = 0, songCount = 3, songList = [''a.wav'', ''b.wav'', ''c.wav'']\<rparr>)"
proof -
  let ?s = "\<lparr>playing = False, currentSong = 0, songCount = 3, songList = [''a.wav'', ''b.wav'', ''c.wav'']\<rparr>"
  have "\<forall>s' \<in> set (nav_trace [Next, Next, Next, Prev] ?s).
          0 \<le> currentSong s' \<and> currentSong s' < songCount ?s \<and> songCount s' = songCount ?s"
    by (rule nav_trace_in_range) simp_all
  then have "list_all (\<lambda>s'. 0 \<le> currentSong s' \<and> currentSong s' < 3 \<and> songCount s' = 3)
       (nav_trace [Next, Next, Next, Prev] ?s)"
    by (simp add: list_all_iff)
  moreover have "map currentSong (nav_trace [Next, Next, Next, Prev] ?s) = [1, 2, 0, 2]"
    by (simp add: nextSong_def prevSong_def)
  ultimately show ?thesis by simp
qed

text \<open>
  C7. From any index inside \<open>[0, songCount)\<close> with \<open>songCount > 0\<close>, \<^verbatim>\<open>nextSong\<close>
  followed by \<^verbatim>\<open>prevSong\<close> restores the state, and so does \<^verbatim>\<open>prevSong\<close> followed by
  \<^verbatim>\<open>nextSong\<close>; the wrap boundaries \<open>0\<close> and \<open>songCount - 1\<close> are included.
\<close>

theorem advance_retreat_inverse:
  assumes "0 < songCount s" and "0 \<le> currentSong s" and "currentSong s < songCount s"
  shows "prevSong (nextSong s) = s \<and> nextSong (prevSong s) = s"
  using assms by (auto simp: nextSong_def prevSong_def)

theorem advance_retreat_inverse_witness:
  "prevSong (nextSong \<lparr>playing = False, currentSong = 2, songCount = 3, songList = []\<rparr>)
     = \<lparr>playing = False, currentSong = 2, songCount = 3, songList = []\<rparr>
   \<and> nextSong (prevSong \<lparr>playing = False, currentSong = 0, songCount = 3, songList = []\<rparr>)
     = \<lparr>playing = False, currentSong = 0, songCount = 3, songList = []\<rparr>"
  using advance_retreat_inverse [of "\<lparr>playing = False, currentSong = 2, songCount = 3, songList = []\<rparr>"]
        advance_retreat_inverse [of "\<lparr>playing = False, currentSong = 0, songCount = 3, songList = []\<rparr>"]
  by simp

section \<open>Auxiliary facts on the remote protocol task and the shuffle\<close>

lemma unat_size_t: "n < 2 ^ 32 \<Longrightarrow> unat (word_of_nat n :: 32 word) = n"
  by (simp add: unat_of_nat)

lemma counter_less_bound:
  "i < 2 ^ 32 \<Longrightarrow> ((word_of_nat i :: 32 word) < name_bound name) = (i < unat (name_bound name))"
  by (simp add: word_less_nat_alt unat_size_t)

lemma name_bound_long:
  assumes "4 \<le> length name" and "length name < 2 ^ 32"
  shows "unat (name_bound name) = length name - 4"
proof -
  have "name_bound name = word_of_nat (length name - 4)"
    using assms(1) by (simp add: name_bound_def of_nat_diff)
  moreover have "length name - 4 < 2 ^ 32" using assms(2) by simp
  ultimately show ?thesis by (simp add: unat_size_t)
qed

lemma name_bound_short:
  assumes "length name < 4"
  shows "unat (name_bound name) = 2 ^ 32 - 4 + length name"
proof -
  have u: "unat (word_of_nat (length name) :: 32 word) = length name"
    using assms by (simp add: unat_size_t)
  have "unat (name_bound name) = unat (word_of_nat (length name) :: 32 word) + 2 ^ 32 - unat (4 :: 32 word)"
    unfolding name_bound_def using assms u by (simp add: unat_sub_if')
  with u show ?thesis by simp
qed

lemma put_chars_short:
  assumes "length name < 4"
  shows "i \<le> length name \<Longrightarrow> put_chars name i w = Inl StringIndexOutOfRange"
proof (induction "length name - i" arbitrary: i w)
  case 0
  then have "i = length name" by simp
  with assms have "i < 2 ^ 32" and "i < unat (name_bound name)"
    by (simp_all add: name_bound_short)
  then have "(word_of_nat i :: 32 word) < name_bound name"
    by (simp add: counter_less_bound)
  with \<open>i = length name\<close> show ?case by (subst put_chars.simps) simp
next
  case (Suc k)
  then have lt: "i < length name" by simp
  with assms have "i < 2 ^ 32" and "i < unat (name_bound name)"
    by (simp_all add: name_bound_short)
  then have c: "(word_of_nat i :: 32 word) < name_bound name"
    by (simp add: counter_less_bound)
  have "put_chars name (Suc i) (putc (name ! i) w) = Inl StringIndexOutOfRange"
    using Suc lt by (intro Suc.hyps(1)) simp_all
  with c lt show ?case by (subst put_chars.simps) simp
qed

lemma put_chars_inside:
  assumes "unat (name_bound name) \<le> length name"
  shows "i \<le> unat (name_bound name) \<Longrightarrow>
           put_chars name i w = Inr (w\<lparr>tx := tx w @ drop i (take (unat (name_bound name)) name)\<rparr>)"
proof (induction "unat (name_bound name) - i" arbitrary: i w)
  case 0
  then have e: "i = unat (name_bound name)" by simp
  have "unat (name_bound name) < 2 ^ 32" using unsigned_less [of "name_bound name"] by simp
  with e have "i < 2 ^ 32" by simp
  then have "((word_of_nat i :: 32 word) < name_bound name) = (i < unat (name_bound name))"
    by (rule counter_less_bound)
  with e have "\<not> (word_of_nat i :: 32 word) < name_bound name" by simp
  with e show ?case by (subst put_chars.simps) simp
next
  case (Suc k)
  then have lt: "i < unat (name_bound name)" by simp
  have "unat (name_bound name) < 2 ^ 32" using unsigned_less [of "name_bound name"] by simp
  with lt have "i < 2 ^ 32" by simp
  then have "((word_of_nat i :: 32 word) < name_bound name) = (i < unat (name_bound name))"
    by (rule counter_less_bound)
  with lt have c: "(word_of_nat i :: 32 word) < name_bound name" by simp
  from lt assms have inside: "i < length name" by simp
  have "put_chars name (Suc i) (putc (name ! i) w)
          = Inr ((putc (name ! i) w)\<lparr>tx := tx (putc (name ! i) w)
                   @ drop (Suc i) (take (unat (name_bound name)) name)\<rparr>)"
    using Suc lt by (intro Suc.hyps(1)) simp_all
  moreover have "drop i (take (unat (name_bound name)) name)
                   = name ! i # drop (Suc i) (take (unat (name_bound name)) name)"
    using lt inside by (simp add: Cons_nth_drop_Suc [symmetric])
  ultimately show ?case using c inside by (subst put_chars.simps) (simp add: putc_def)
qed

lemma name_bound_le:
  assumes "4 \<le> length name"
  shows "unat (name_bound name) \<le> length name - 4"
proof -
  have "name_bound name = word_of_nat (length name - 4)"
    using assms by (simp add: name_bound_def of_nat_diff)
  then show ?thesis by (simp add: unat_of_nat)
qed

lemma put_chars_preserves:
  "put_chars name i w = Inr w' \<Longrightarrow>
     shared w' = shared w \<and> previousSongBLE w' = previousSongBLE w \<and> rx w' = rx w"
proof (induction name i w rule: put_chars.induct)
  case (1 name i w)
  show ?case
  proof (cases "(word_of_nat i :: 32 word) < name_bound name \<and> i < length name")
    case True
    with "1.prems" have "put_chars name (Suc i) (putc (name ! i) w) = Inr w'"
      by (subst (asm) put_chars.simps) simp
    with True have "shared w' = shared (putc (name ! i) w)
        \<and> previousSongBLE w' = previousSongBLE (putc (name ! i) w) \<and> rx w' = rx (putc (name ! i) w)"
      by (intro "1.IH") simp_all
    then show ?thesis by (simp add: putc_def)
  next
    case False
    with "1.prems" have "w' = w"
      by (subst (asm) put_chars.simps) (auto split: if_splits)
    then show ?thesis by simp
  qed
qed

lemma preamble: "foldl (\<lambda>v i. putc (''Current Song: '' ! i) v) w [0..<14] = w\<lparr>tx := tx w @ ''Current Song: ''\<rparr>"
  by (simp add: putc_def upt_rec numeral_nat)

lemma status_push_idle:
  "\<not> writeable \<or> previousSongBLE w = currentSong (shared w) \<Longrightarrow> status_push writeable w = Inr w"
  by (auto simp: status_push_def)

lemma status_push_emits:
  assumes "previousSongBLE w \<noteq> currentSong (shared w)"
    and "song_at (shared w) = Inr name" and "4 \<le> length name"
  shows "status_push True w =
           Inr (w\<lparr>tx := tx w @ ''Current Song: '' @ take (unat (name_bound name)) name @ [newline],
                  previousSongBLE := currentSong (shared w)\<rparr>)"
proof -
  have "unat (name_bound name) \<le> length name"
    using name_bound_le [OF assms(3)] by simp
  then have "put_chars name 0 (w\<lparr>tx := tx w @ ''Current Song: ''\<rparr>)
      = Inr (w\<lparr>tx := tx w @ ''Current Song: ''\<rparr>
              \<lparr>tx := tx (w\<lparr>tx := tx w @ ''Current Song: ''\<rparr>)
                   @ drop 0 (take (unat (name_bound name)) name)\<rparr>)"
    by (intro put_chars_inside) simp_all
  moreover have "status_push True w =
      bindR (song_at (shared w)) (\<lambda>name.
      bindR (put_chars name 0 (w\<lparr>tx := tx w @ ''Current Song: ''\<rparr>)) (\<lambda>w2.
      Inr ((putc newline w2)\<lparr>previousSongBLE := currentSong (shared w)\<rparr>)))"
    using assms(1) by (simp add: status_push_def preamble)
  ultimately show ?thesis
    using assms(2) by (simp add: bindR_def putc_def)
qed

lemma status_push_short:
  assumes "previousSongBLE w \<noteq> currentSong (shared w)"
    and "song_at (shared w) = Inr name" and "length name < 4"
  shows "status_push True w = Inl StringIndexOutOfRange"
  using assms put_chars_short [OF assms(3), of 0]
  by (simp add: status_push_def bindR_def)

lemma status_push_preserves:
  assumes "status_push writeable w = Inr w'"
  shows "shared w' = shared w \<and> rx w' = rx w \<and> previousSongBLE w' = (if writeable then currentSong (shared w) else previousSongBLE w)"
proof (cases "writeable \<and> previousSongBLE w \<noteq> currentSong (shared w)")
  case False
  then have "status_push writeable w = Inr w" by (auto simp: status_push_def)
  with assms False show ?thesis by auto
next
  case True
  with assms obtain name w2 where
      "put_chars name 0 (foldl (\<lambda>v i. putc (''Current Song: '' ! i) v) w [0..<14]) = Inr w2"
      and w': "w' = (putc newline w2)\<lparr>previousSongBLE := currentSong (shared w)\<rparr>"
    by (auto simp: status_push_def bindR_def Let_def split: sum.splits)
  then have "shared w2 = shared (w\<lparr>tx := tx w @ ''Current Song: ''\<rparr>)
     \<and> rx w2 = rx (w\<lparr>tx := tx w @ ''Current Song: ''\<rparr>)"
    using put_chars_preserves [of name 0 "w\<lparr>tx := tx w @ ''Current Song: ''\<rparr>" w2]
    by (simp add: preamble)
  with w' True show ?thesis by (simp add: putc_def)
qed

lemma read_frame:
  "rx w = CHR ''!'' # CHR ''B'' # code # edge # rest \<Longrightarrow>
   read_commands acc w =
     (if edge = CHR ''0'' \<and> code = CHR ''1'' then Inr (w\<lparr>shared := playSong (shared w), rx := rest\<rparr>)
      else if edge = CHR ''0'' \<and> code = CHR ''2'' then Inr (w\<lparr>shared := nextSong (shared w), rx := rest\<rparr>)
      else if edge = CHR ''0'' \<and> code = CHR ''3'' then Inr (w\<lparr>shared := prevSong (shared w), rx := rest\<rparr>)
      else if edge = CHR ''0'' \<and> code = CHR ''4'' then
        bindR (shuffleSong acc (shared w)) (\<lambda>s'. Inr (w\<lparr>shared := s', rx := rest\<rparr>))
      else Inr (w\<lparr>rx := rest\<rparr>))"
  by (simp add: read_commands_def readable_def getc_def bindR_def split: sum.splits)

lemma read_not_bang:
  "rx w = c0 # r1 \<Longrightarrow> c0 \<noteq> CHR ''!'' \<Longrightarrow> read_commands acc w = Inr (w\<lparr>rx := r1\<rparr>)"
  by (simp add: read_commands_def readable_def getc_def bindR_def)

lemma read_not_B:
  "rx w = CHR ''!'' # c1 # r2 \<Longrightarrow> c1 \<noteq> CHR ''B'' \<Longrightarrow> read_commands acc w = Inr (w\<lparr>rx := r2\<rparr>)"
  by (simp add: read_commands_def readable_def getc_def bindR_def)

lemma c_rem_nonneg:
  assumes "0 \<le> a" and "0 < b" and "c_rem a b = Inr r"
  shows "0 \<le> r \<and> r < b"
proof -
  from assms(2,3) have r: "r = sgn a * (\<bar>a\<bar> mod \<bar>b\<bar>)"
    by (simp add: c_rem_def)
  show ?thesis
  proof (cases "a = 0")
    case True
    with r assms(2) show ?thesis by simp
  next
    case False
    with assms(1) have "sgn a = 1" by simp
    with r assms(1,2) show ?thesis by simp
  qed
qed

lemma c_rem_magnitude:
  assumes "0 < b" and "c_rem a b = Inr r"
  shows "- b < r \<and> r < b"
proof -
  from assms have r: "r = sgn a * (\<bar>a\<bar> mod b)"
    by (simp add: c_rem_def)
  have m: "0 \<le> \<bar>a\<bar> mod b \<and> \<bar>a\<bar> mod b < b"
    using assms(1) by simp
  consider "sgn a = 0" | "sgn a = 1" | "sgn a = - 1"
    by (cases a rule: linorder_cases [of _ 0]) simp_all
  then show ?thesis
  proof cases
    case 1 with r assms(1) show ?thesis by simp
  next
    case 2 with r m show ?thesis by simp
  next
    case 3 with r m show ?thesis by simp
  qed
qed

lemma int_of_double_nonneg: "0 \<le> d \<Longrightarrow> int_of_double d = Inr t \<Longrightarrow> 0 \<le> t"
  by (auto simp: int_of_double_def Let_def split: if_splits)

lemma shuffleSong_Inr:
  assumes "shuffleSong (x, y, z) s = Inr s'"
  obtains e r where "int_of_double (100000 * (x + y + z)) = Inr e"
    and "c_rem e (songCount s) = Inr r" and "s' = s\<lparr>currentSong := r\<rparr>"
  using assms by (auto simp: shuffleSong_def bindR_def split: sum.splits)

lemma shuffle_nonneg:
  assumes "0 < songCount s" and "0 \<le> x + y + z" and "shuffleSong (x, y, z) s = Inr s'"
  shows "0 \<le> currentSong s' \<and> currentSong s' < songCount s'"
proof -
  from assms(3) obtain e r where e: "int_of_double (100000 * (x + y + z)) = Inr e"
    and r: "c_rem e (songCount s) = Inr r" and s': "s' = s\<lparr>currentSong := r\<rparr>"
    by (rule shuffleSong_Inr)
  from assms(2) have "0 \<le> 100000 * (x + y + z)" by simp
  then have "0 \<le> e" using e by (rule int_of_double_nonneg)
  then have "0 \<le> r \<and> r < songCount s" using assms(1) r by (rule c_rem_nonneg)
  with s' show ?thesis by simp
qed

lemma shuffle_magnitude:
  assumes "0 < songCount s" and "shuffleSong (x, y, z) s = Inr s'"
  shows "- songCount s' < currentSong s' \<and> currentSong s' < songCount s'"
proof -
  from assms(2) obtain e r where r: "c_rem e (songCount s) = Inr r" and s': "s' = s\<lparr>currentSong := r\<rparr>"
    by (rule shuffleSong_Inr)
  from assms(1) r have "- songCount s < r \<and> r < songCount s" by (rule c_rem_magnitude)
  with s' show ?thesis by simp
qed

lemma status_push_message:
  assumes "previousSongBLE w \<noteq> currentSong (shared w)"
    and "song_at (shared w) = Inr name" and "4 \<le> length name" and "length name < 2 ^ 32"
  shows "status_push True w =
           Inr (w\<lparr>tx := tx w @ ''Current Song: '' @ take (length name - 4) name @ [newline],
                  previousSongBLE := currentSong (shared w)\<rparr>)"
  using status_push_emits [OF assms(1,2,3)] name_bound_long [OF assms(3,4)] by simp

section \<open>Main results on the remote protocol task, the shuffle and the playback loop\<close>

text \<open>
  C1 states that for every \<open>songCount > 0\<close> and every accelerometer reading, negative sums
  included, one call of \<^verbatim>\<open>shuffleSong\<close> leaves \<open>currentSong\<close> inside \<open>[0, songCount)\<close>.
  The code: with three songs and the reading \<open>(0, 0, -1)\<close> (the device lying face down),
  \<^verbatim>\<open>int(100000 * (x + y + z))\<close> is \<open>-100000\<close> and \<^verbatim>\<open>-100000 % 3\<close> is \<open>-1\<close>, which
  \<^verbatim>\<open>shuffleSong\<close> stores in \<open>currentSong\<close>. (For a sum that is not negative the index is
  in range, lemma \<open>shuffle_nonneg\<close>; in general it lies strictly between \<open>-songCount\<close> and
  \<open>songCount\<close>, lemma \<open>shuffle_magnitude\<close>.)
\<close>

theorem shuffleSong_negative_sum:
  "shuffleSong (0, 0, - 1)
     \<lparr>playing = False, currentSong = 0, songCount = 3, songList = [''a.wav'', ''b.wav'', ''c.wav'']\<rparr>
   = Inr \<lparr>playing = False, currentSong = - 1, songCount = 3, songList = [''a.wav'', ''b.wav'', ''c.wav'']\<rparr>"
  by (simp add: shuffleSong_def int_of_double_def c_rem_def bindR_def)

text \<open>
  C2. For every complete frame \<open>'!', 'B', code, edge\<close> at the head of the input: when
  \<open>edge = '0'\<close> and \<open>code\<close> is one of \<open>'1'\<close>, \<open>'2'\<close>, \<open>'3'\<close>, \<open>'4'\<close>, exactly the mapped
  operation runs (\<^verbatim>\<open>playSong\<close>, \<^verbatim>\<open>nextSong\<close>, \<^verbatim>\<open>prevSong\<close>, \<^verbatim>\<open>shuffleSong\<close>), and
  otherwise the frame is consumed and nothing else changes. In particular the frame
  \<open>!B10\<close> with \<open>playing = False\<close> ends with \<open>playing = True\<close>, and \<open>!B11\<close> changes
  nothing but the input consumed.
\<close>

theorem frame_dispatch:
  "(rx w = CHR ''!'' # CHR ''B'' # code # edge # rest \<longrightarrow>
      read_commands acc w =
        (if edge = CHR ''0'' \<and> code = CHR ''1'' then Inr (w\<lparr>shared := playSong (shared w), rx := rest\<rparr>)
         else if edge = CHR ''0'' \<and> code = CHR ''2'' then Inr (w\<lparr>shared := nextSong (shared w), rx := rest\<rparr>)
         else if edge = CHR ''0'' \<and> code = CHR ''3'' then Inr (w\<lparr>shared := prevSong (shared w), rx := rest\<rparr>)
         else if edge = CHR ''0'' \<and> code = CHR ''4'' then
           bindR (shuffleSong acc (shared w)) (\<lambda>s'. Inr (w\<lparr>shared := s', rx := rest\<rparr>))
         else Inr (w\<lparr>rx := rest\<rparr>)))
   \<and> (rx w = ''!B10'' \<and> \<not> playing (shared w) \<longrightarrow>
        read_commands acc w = Inr (w\<lparr>shared := (shared w)\<lparr>playing := True\<rparr>, rx := []\<rparr>))
   \<and> (rx w = ''!B11'' \<longrightarrow> read_commands acc w = Inr (w\<lparr>rx := []\<rparr>))"
proof (intro conjI impI)
  assume "rx w = CHR ''!'' # CHR ''B'' # code # edge # rest"
  then show "read_commands acc w =
        (if edge = CHR ''0'' \<and> code = CHR ''1'' then Inr (w\<lparr>shared := playSong (shared w), rx := rest\<rparr>)
         else if edge = CHR ''0'' \<and> code = CHR ''2'' then Inr (w\<lparr>shared := nextSong (shared w), rx := rest\<rparr>)
         else if edge = CHR ''0'' \<and> code = CHR ''3'' then Inr (w\<lparr>shared := prevSong (shared w), rx := rest\<rparr>)
         else if edge = CHR ''0'' \<and> code = CHR ''4'' then
           bindR (shuffleSong acc (shared w)) (\<lambda>s'. Inr (w\<lparr>shared := s', rx := rest\<rparr>))
         else Inr (w\<lparr>rx := rest\<rparr>))"
    by (rule read_frame)
next
  assume "rx w = ''!B10'' \<and> \<not> playing (shared w)"
  then show "read_commands acc w = Inr (w\<lparr>shared := (shared w)\<lparr>playing := True\<rparr>, rx := []\<rparr>)"
    using read_frame [of w "CHR ''1''" "CHR ''0''" "[]" acc] by (simp add: playSong_def)
next
  assume "rx w = ''!B11''"
  then show "read_commands acc w = Inr (w\<lparr>rx := []\<rparr>)"
    using read_frame [of w "CHR ''1''" "CHR ''1''" "[]" acc] by simp
qed

theorem frame_dispatch_witness:
  "read_commands (0, 0, 1)
     \<lparr>shared = \<lparr>playing = False, currentSong = 0, songCount = 2, songList = [''a.wav'', ''b.wav'']\<rparr>,
      previousSongBLE = 0, rx = ''!B10'', tx = []\<rparr>
   = Inr \<lparr>shared = \<lparr>playing = True, currentSong = 0, songCount = 2, songList = [''a.wav'', ''b.wav'']\<rparr>,
          previousSongBLE = 0, rx = [], tx = []\<rparr>
   \<and> read_commands (0, 0, 1)
     \<lparr>shared = \<lparr>playing = False, currentSong = 0, songCount = 2, songList = [''a.wav'', ''b.wav'']\<rparr>,
      previousSongBLE = 0, rx = ''!B11'', tx = []\<rparr>
   = Inr \<lparr>shared = \<lparr>playing = False, currentSong = 0, songCount = 2, songList = [''a.wav'', ''b.wav'']\<rparr>,
          previousSongBLE = 0, rx = [], tx = []\<rparr>
   \<and> read_commands (0, 0, 1)
     \<lparr>shared = \<lparr>playing = False, currentSong = 0, songCount = 2, songList = [''a.wav'', ''b.wav'']\<rparr>,
      previousSongBLE = 0, rx = ''!B20!B30'', tx = []\<rparr>
   = Inr \<lparr>shared = \<lparr>playing = False, currentSong = 1, songCount = 2, songList = [''a.wav'', ''b.wav'']\<rparr>,
          previousSongBLE = 0, rx = ''!B30'', tx = []\<rparr>"
  using
    frame_dispatch [of "\<lparr>shared = \<lparr>playing = False, currentSong = 0, songCount = 2, songList = [''a.wav'', ''b.wav'']\<rparr>,
      previousSongBLE = 0, rx = ''!B10'', tx = []\<rparr>" "CHR ''1''" "CHR ''0''" "[]" "(0, 0, 1)"]
    frame_dispatch [of "\<lparr>shared = \<lparr>playing = False, currentSong = 0, songCount = 2, songList = [''a.wav'', ''b.wav'']\<rparr>,
      previousSongBLE = 0, rx = ''!B11'', tx = []\<rparr>" "CHR ''1''" "CHR ''1''" "[]" "(0, 0, 1)"]
    frame_dispatch [of "\<lparr>shared = \<lparr>playing = False, currentSong = 0, songCount = 2, songList = [''a.wav'', ''b.wav'']\<rparr>,
      previousSongBLE = 0, rx = ''!B20!B30'', tx = []\<rparr>" "CHR ''2''" "CHR ''0''" "''!B30''" "(0, 0, 1)"]
  by (simp add: nextSong_def playSong_def)

text \<open>
  C3 states that the last-pushed index starts at a sentinel that is no valid track index, so
  that the first pass with a writable transport pushes a status for any initial
  \<open>currentSong\<close>, index 0 included. The code starts \<^verbatim>\<open>previousSongBLE\<close> at 0: with one
  song and \<open>currentSong = 0\<close> (a valid index, equal to the start value), the first pass
  with a writable transport writes nothing.
\<close>

theorem first_cycle_track_zero_counterexample:
  "0 \<le> currentSong \<lparr>playing = False, currentSong = 0, songCount = 1, songList = [''a.wav'']\<rparr>
   \<and> currentSong \<lparr>playing = False, currentSong = 0, songCount = 1, songList = [''a.wav'']\<rparr>
       < songCount \<lparr>playing = False, currentSong = 0, songCount = 1, songList = [''a.wav'']\<rparr>
   \<and> previousSongBLE (BluetoothThread_init
         \<lparr>playing = False, currentSong = 0, songCount = 1, songList = [''a.wav'']\<rparr> [])
       = currentSong \<lparr>playing = False, currentSong = 0, songCount = 1, songList = [''a.wav'']\<rparr>
   \<and> ble_cycle True (0, 0, 1) (BluetoothThread_init
         \<lparr>playing = False, currentSong = 0, songCount = 1, songList = [''a.wav'']\<rparr> [])
       = Inr \<lparr>shared = \<lparr>playing = False, currentSong = 0, songCount = 1, songList = [''a.wav'']\<rparr>,
              previousSongBLE = 0, rx = [], tx = []\<rparr>"
  by (simp add: BluetoothThread_init_def ble_cycle_def status_push_def read_commands_def
        readable_def bindR_def)

text \<open>
  C3, as amended. The task starts with \<^verbatim>\<open>previousSongBLE = 0\<close>. On a pass with a writable
  transport in that state nothing is pushed when \<open>currentSong = 0\<close>; when
  \<open>currentSong \<noteq> 0\<close> (and it selects a name of at least 4 characters) the status message
  is pushed and \<^verbatim>\<open>previousSongBLE\<close> becomes \<open>currentSong\<close>. After the push phase of any
  pass with a writable transport, \<^verbatim>\<open>previousSongBLE\<close> equals \<open>currentSong\<close>.
\<close>

theorem last_pushed_starts_at_zero:
  "previousSongBLE (BluetoothThread_init s inbound) = 0
   \<and> (currentSong s = 0 \<longrightarrow>
        status_push True (BluetoothThread_init s inbound) = Inr (BluetoothThread_init s inbound))
   \<and> (currentSong s \<noteq> 0 \<and> song_at s = Inr name \<and> 4 \<le> length name \<longrightarrow>
        status_push True (BluetoothThread_init s inbound)
          = Inr ((BluetoothThread_init s inbound)
                   \<lparr>tx := ''Current Song: '' @ take (unat (name_bound name)) name @ [newline],
                    previousSongBLE := currentSong s\<rparr>))
   \<and> (status_push True w = Inr w' \<longrightarrow> previousSongBLE w' = currentSong (shared w'))"
proof (intro conjI impI)
  show "previousSongBLE (BluetoothThread_init s inbound) = 0"
    by (simp add: BluetoothThread_init_def)
next
  assume "currentSong s = 0"
  then show "status_push True (BluetoothThread_init s inbound) = Inr (BluetoothThread_init s inbound)"
    by (intro status_push_idle) (simp add: BluetoothThread_init_def)
next
  assume a: "currentSong s \<noteq> 0 \<and> song_at s = Inr name \<and> 4 \<le> length name"
  then have "status_push True (BluetoothThread_init s inbound) =
      Inr ((BluetoothThread_init s inbound)
        \<lparr>tx := tx (BluetoothThread_init s inbound) @ ''Current Song: ''
                 @ take (unat (name_bound name)) name @ [newline],
         previousSongBLE := currentSong (shared (BluetoothThread_init s inbound))\<rparr>)"
    by (intro status_push_emits) (simp_all add: BluetoothThread_init_def)
  then show "status_push True (BluetoothThread_init s inbound)
          = Inr ((BluetoothThread_init s inbound)
                   \<lparr>tx := ''Current Song: '' @ take (unat (name_bound name)) name @ [newline],
                    previousSongBLE := currentSong s\<rparr>)"
    by (simp add: BluetoothThread_init_def)
next
  assume "status_push True w = Inr w'"
  then have "shared w' = shared w
      \<and> rx w' = rx w \<and> previousSongBLE w' = (if True then currentSong (shared w) else previousSongBLE w)"
    by (rule status_push_preserves)
  then show "previousSongBLE w' = currentSong (shared w')" by simp
qed

theorem last_pushed_starts_at_zero_witness:
  "status_push True (BluetoothThread_init
       \<lparr>playing = False, currentSong = 0, songCount = 2, songList = [''a.wav'', ''b.wav'']\<rparr> [])
     = Inr \<lparr>shared = \<lparr>playing = False, currentSong = 0, songCount = 2, songList = [''a.wav'', ''b.wav'']\<rparr>,
            previousSongBLE = 0, rx = [], tx = []\<rparr>
   \<and> status_push True (BluetoothThread_init
       \<lparr>playing = False, currentSong = 1, songCount = 2, songList = [''a.wav'', ''b.wav'']\<rparr> [])
     = Inr \<lparr>shared = \<lparr>playing = False, currentSong = 1, songCount = 2, songList = [''a.wav'', ''b.wav'']\<rparr>,
            previousSongBLE = 1, rx = [], tx = ''Current Song: b'' @ [CHR 0x0A]\<rparr>
   \<and> previousSongBLE
        \<lparr>shared = \<lparr>playing = False, currentSong = 1, songCount = 2, songList = [''a.wav'', ''b.wav'']\<rparr>,
            previousSongBLE = 1, rx = [], tx = ''Current Song: b'' @ [CHR 0x0A]\<rparr> = 1"
proof -
  let ?s0 = "\<lparr>playing = False, currentSong = 0, songCount = 2, songList = [''a.wav'', ''b.wav'']\<rparr>"
  let ?s1 = "\<lparr>playing = False, currentSong = 1, songCount = 2, songList = [''a.wav'', ''b.wav'']\<rparr>"
  let ?w' = "\<lparr>shared = ?s1, previousSongBLE = 1, rx = [], tx = ''Current Song: b'' @ [CHR 0x0A]\<rparr>"
  have nb: "unat (name_bound ''b.wav'') = 1" by (simp add: name_bound_def)
  have zero: "status_push True (BluetoothThread_init ?s0 []) = Inr (BluetoothThread_init ?s0 [])"
    using last_pushed_starts_at_zero [of ?s0 "[]"] by simp
  have one: "status_push True (BluetoothThread_init ?s1 []) = Inr ?w'"
    using last_pushed_starts_at_zero [of ?s1 "[]" "''b.wav''"] nb
    by (simp add: song_at_def BluetoothThread_init_def newline_def)
  have "previousSongBLE ?w' = currentSong (shared ?w')"
    using last_pushed_starts_at_zero [of ?s1 "[]" "''b.wav''" "BluetoothThread_init ?s1 []" ?w'] one
    by blast
  with zero one show ?thesis by (simp add: BluetoothThread_init_def)
qed

text \<open>
  C4 states that when opening the file of \<open>currentSong\<close> fails, the error is shown, no
  playback is performed on the failed handle, the fixed delay passes and the loop goes on.
  The code: when \<^verbatim>\<open>fopen\<close> returns the null pointer, the pass shows
  \<^verbatim>\<open>file open error!\<close> at column 0, row 12, waits 1000 ms, and then still calls
  \<^verbatim>\<open>waver.play\<close> and \<^verbatim>\<open>fclose\<close> on the null pointer (lines 409-411 are not guarded by
  the test of line 401) before it clears \<open>playing\<close>.
\<close>

theorem main_iteration_open_failure:
  "main_iteration (\<lambda>path. None)
     \<lparr>playing = True, currentSong = 0, songCount = 1, songList = [''a.wav'']\<rparr>
   = Inr ([LcdLocate 0 12, LcdPrintf ''file open error!'', ThreadWait 1000, WaverPlay None, Fclose None],
          \<lparr>playing = False, currentSong = 0, songCount = 1, songList = [''a.wav'']\<rparr>)"
  by (simp add: main_iteration_def song_at_def bindR_def)

text \<open>
  C8. When the first byte read is not \<open>'!'\<close>, or it is and the byte after it is not
  \<open>'B'\<close>, the bytes read are dropped and nothing else changes: no control-surface operation
  runs, the shared state, \<^verbatim>\<open>previousSongBLE\<close> and the output are as before, and the pass
  ends without a fault. The malformed frame \<open>!XY0\<close> is gone after three passes, with the
  state unchanged.
\<close>

theorem malformed_preamble_dropped:
  "(rx w = c0 # r1 \<and> c0 \<noteq> CHR ''!'' \<longrightarrow> read_commands acc w = Inr (w\<lparr>rx := r1\<rparr>))
   \<and> (rx w = CHR ''!'' # c1 # r2 \<and> c1 \<noteq> CHR ''B'' \<longrightarrow> read_commands acc w = Inr (w\<lparr>rx := r2\<rparr>))
   \<and> (rx w = ''!XY0'' \<longrightarrow>
        bindR (read_commands acc w) (\<lambda>w1. bindR (read_commands acc w1) (read_commands acc))
          = Inr (w\<lparr>rx := []\<rparr>))"
proof (intro conjI impI)
  assume "rx w = c0 # r1 \<and> c0 \<noteq> CHR ''!''"
  then show "read_commands acc w = Inr (w\<lparr>rx := r1\<rparr>)"
    by (simp add: read_not_bang)
next
  assume "rx w = CHR ''!'' # c1 # r2 \<and> c1 \<noteq> CHR ''B''"
  then show "read_commands acc w = Inr (w\<lparr>rx := r2\<rparr>)"
    by (simp add: read_not_B)
next
  assume a: "rx w = ''!XY0''"
  have 1: "read_commands acc w = Inr (w\<lparr>rx := ''Y0''\<rparr>)"
    using a read_not_B [of w "CHR ''X''" "''Y0''" acc] by simp
  have 2: "read_commands acc (w\<lparr>rx := ''Y0''\<rparr>) = Inr (w\<lparr>rx := ''0''\<rparr>)"
    using read_not_bang [of "w\<lparr>rx := ''Y0''\<rparr>" "CHR ''Y''" "''0''" acc] by simp
  have 3: "read_commands acc (w\<lparr>rx := ''0''\<rparr>) = Inr (w\<lparr>rx := []\<rparr>)"
    using read_not_bang [of "w\<lparr>rx := ''0''\<rparr>" "CHR ''0''" "[]" acc] by simp
  from 1 2 3 show "bindR (read_commands acc w) (\<lambda>w1. bindR (read_commands acc w1) (read_commands acc))
          = Inr (w\<lparr>rx := []\<rparr>)"
    by (simp add: bindR_def)
qed

theorem malformed_preamble_dropped_witness:
  "read_commands (0, 0, 1)
     \<lparr>shared = \<lparr>playing = False, currentSong = 0, songCount = 2, songList = [''a.wav'', ''b.wav'']\<rparr>,
      previousSongBLE = 0, rx = ''XB20'', tx = []\<rparr>
   = Inr \<lparr>shared = \<lparr>playing = False, currentSong = 0, songCount = 2, songList = [''a.wav'', ''b.wav'']\<rparr>,
          previousSongBLE = 0, rx = ''B20'', tx = []\<rparr>
   \<and> read_commands (0, 0, 1)
     \<lparr>shared = \<lparr>playing = False, currentSong = 0, songCount = 2, songList = [''a.wav'', ''b.wav'']\<rparr>,
      previousSongBLE = 0, rx = ''!XY0'', tx = []\<rparr>
   = Inr \<lparr>shared = \<lparr>playing = False, currentSong = 0, songCount = 2, songList = [''a.wav'', ''b.wav'']\<rparr>,
          previousSongBLE = 0, rx = ''Y0'', tx = []\<rparr>
   \<and> bindR (read_commands (0, 0, 1)
       \<lparr>shared = \<lparr>playing = False, currentSong = 0, songCount = 2, songList = [''a.wav'', ''b.wav'']\<rparr>,
        previousSongBLE = 0, rx = ''!XY0'', tx = []\<rparr>)
       (\<lambda>w1. bindR (read_commands (0, 0, 1) w1) (read_commands (0, 0, 1)))
   = Inr \<lparr>shared = \<lparr>playing = False, currentSong = 0, songCount = 2, songList = [''a.wav'', ''b.wav'']\<rparr>,
          previousSongBLE = 0, rx = [], tx = []\<rparr>"
proof (intro conjI)
  let ?s = "\<lparr>playing = False, currentSong = 0, songCount = 2, songList = [''a.wav'', ''b.wav'']\<rparr>"
  show "read_commands (0, 0, 1) \<lparr>shared = ?s, previousSongBLE = 0, rx = ''XB20'', tx = []\<rparr>
          = Inr \<lparr>shared = ?s, previousSongBLE = 0, rx = ''B20'', tx = []\<rparr>"
    using malformed_preamble_dropped [of
      "\<lparr>shared = ?s, previousSongBLE = 0, rx = ''XB20'', tx = []\<rparr>"
      "CHR ''X''" "''B20''" "(0, 0, 1)" "CHR ''X''" "[]"]
    by simp
  show "read_commands (0, 0, 1) \<lparr>shared = ?s, previousSongBLE = 0, rx = ''!XY0'', tx = []\<rparr>
          = Inr \<lparr>shared = ?s, previousSongBLE = 0, rx = ''Y0'', tx = []\<rparr>"
    using malformed_preamble_dropped [of
      "\<lparr>shared = ?s, previousSongBLE = 0, rx = ''!XY0'', tx = []\<rparr>"
      "CHR ''!''" "''XY0''" "(0, 0, 1)" "CHR ''X''" "''Y0''"]
    by simp
  have "rx \<lparr>shared = ?s, previousSongBLE = 0, rx = ''!XY0'', tx = []\<rparr> = ''!XY0''" by simp
  then have "bindR (read_commands (0, 0, 1) \<lparr>shared = ?s, previousSongBLE = 0, rx = ''!XY0'', tx = []\<rparr>)
           (\<lambda>w1. bindR (read_commands (0, 0, 1) w1) (read_commands (0, 0, 1)))
          = Inr (\<lparr>shared = ?s, previousSongBLE = 0, rx = ''!XY0'', tx = []\<rparr>\<lparr>rx := []\<rparr>)"
    using malformed_preamble_dropped [of
      "\<lparr>shared = ?s, previousSongBLE = 0, rx = ''!XY0'', tx = []\<rparr>"
      "CHR ''!''" "''XY0''" "(0, 0, 1)" "CHR ''X''" "''Y0''"]
    by blast
  then show "bindR (read_commands (0, 0, 1) \<lparr>shared = ?s, previousSongBLE = 0, rx = ''!XY0'', tx = []\<rparr>)
           (\<lambda>w1. bindR (read_commands (0, 0, 1) w1) (read_commands (0, 0, 1)))
          = Inr \<lparr>shared = ?s, previousSongBLE = 0, rx = [], tx = []\<rparr>"
    by simp
qed

text \<open>
  C9 states that on every pass with a writable transport the message pushed for a changed
  \<open>currentSong\<close> is \<open>Current Song: \<close>, the name without its last 4 characters, and a
  newline. The code: for the name \<open>b.c\<close> of 3 characters the loop bound
  \<^verbatim>\<open>size() - 4\<close> is \<open>4294967295\<close>, and the push reads the name beyond its end. (For a
  name of at least 4 characters the message is as stated, lemma \<open>status_push_message\<close>;
  when \<open>currentSong\<close> is unchanged or the transport is not writable nothing is pushed,
  lemma \<open>status_push_idle\<close>.)
\<close>

theorem status_push_short_name_fault:
  "song_at \<lparr>playing = False, currentSong = 1, songCount = 2, songList = [''a.wav'', ''b.c'']\<rparr> = Inr ''b.c''
   \<and> unat (name_bound ''b.c'') = 4294967295
   \<and> status_push True
       \<lparr>shared = \<lparr>playing = False, currentSong = 1, songCount = 2, songList = [''a.wav'', ''b.c'']\<rparr>,
        previousSongBLE = 0, rx = [], tx = []\<rparr>
     = Inl StringIndexOutOfRange"
proof -
  let ?s = "\<lparr>playing = False, currentSong = 1, songCount = 2, songList = [''a.wav'', ''b.c'']\<rparr>"
  have s: "song_at ?s = Inr ''b.c''" by (simp add: song_at_def)
  have "unat (name_bound ''b.c'') = 2 ^ 32 - 4 + length ''b.c''"
    by (rule name_bound_short) simp
  then have b: "unat (name_bound ''b.c'') = 4294967295" by simp
  have "status_push True \<lparr>shared = ?s, previousSongBLE = 0, rx = [], tx = []\<rparr>
          = Inl StringIndexOutOfRange"
    by (rule status_push_short [where name = "''b.c''"]) (simp_all add: song_at_def)
  with s b show ?thesis by simp
qed

text \<open>
  C10. The loop bound \<^verbatim>\<open>songList[currentSong].size() - 4\<close> is computed without sign: for
  a name shorter than 4 characters it wraps around to \<open>2 ^ 32 - 4 + size()\<close> and the loop
  reads the name outside its range. For a name of at least 4 characters every index below
  the bound is inside the name and the loop ends without a fault, having written the first
  \<open>size() - 4\<close> characters.
\<close>

theorem name_length_precondition:
  "(length name < 4 \<longrightarrow>
      unat (name_bound name) = 2 ^ 32 - 4 + length name
      \<and> put_chars name 0 w = Inl StringIndexOutOfRange)
   \<and> (4 \<le> length name \<longrightarrow>
        (\<forall>i < unat (name_bound name). i < length name)
        \<and> put_chars name 0 w = Inr (w\<lparr>tx := tx w @ take (unat (name_bound name)) name\<rparr>))
   \<and> (4 \<le> length name \<and> length name < 2 ^ 32 \<longrightarrow> unat (name_bound name) = length name - 4)"
proof (intro conjI impI allI)
  assume "length name < 4"
  then show "unat (name_bound name) = 2 ^ 32 - 4 + length name" by (rule name_bound_short)
next
  assume "length name < 4"
  then show "put_chars name 0 w = Inl StringIndexOutOfRange" by (rule put_chars_short) simp
next
  fix i
  assume "4 \<le> length name" and "i < unat (name_bound name)"
  with name_bound_le [of name] show "i < length name" by simp
next
  assume "4 \<le> length name"
  with name_bound_le [of name] have "unat (name_bound name) \<le> length name" by simp
  then have "put_chars name 0 w = Inr (w\<lparr>tx := tx w @ drop 0 (take (unat (name_bound name)) name)\<rparr>)"
    by (rule put_chars_inside) simp
  then show "put_chars name 0 w = Inr (w\<lparr>tx := tx w @ take (unat (name_bound name)) name\<rparr>)"
    by simp
next
  assume "4 \<le> length name \<and> length name < 2 ^ 32"
  then show "unat (name_bound name) = length name - 4" by (simp add: name_bound_long)
qed

theorem name_length_precondition_witness:
  "unat (name_bound ''ab'') = 4294967294
   \<and> put_chars ''ab'' 0 \<lparr>shared = \<lparr>playing = False, currentSong = 0, songCount = 1, songList = [''ab'']\<rparr>,
        previousSongBLE = 1, rx = [], tx = []\<rparr> = Inl StringIndexOutOfRange
   \<and> unat (name_bound ''song.wav'') = 4
   \<and> 3 < length ''song.wav''
   \<and> put_chars ''song.wav'' 0
        \<lparr>shared = \<lparr>playing = False, currentSong = 0, songCount = 1, songList = [''song.wav'']\<rparr>,
         previousSongBLE = 1, rx = [], tx = []\<rparr>
      = Inr \<lparr>shared = \<lparr>playing = False, currentSong = 0, songCount = 1, songList = [''song.wav'']\<rparr>,
         previousSongBLE = 1, rx = [], tx = ''song''\<rparr>"
proof -
  let ?wa = "\<lparr>shared = \<lparr>playing = False, currentSong = 0, songCount = 1, songList = [''ab'']\<rparr>,
        previousSongBLE = 1, rx = [], tx = []\<rparr>"
  let ?wb = "\<lparr>shared = \<lparr>playing = False, currentSong = 0, songCount = 1, songList = [''song.wav'']\<rparr>,
        previousSongBLE = 1, rx = [], tx = []\<rparr>"
  have short: "unat (name_bound ''ab'') = 4294967294 \<and> put_chars ''ab'' 0 ?wa = Inl StringIndexOutOfRange"
    using name_length_precondition [of "''ab''" ?wa] by simp
  have len: "unat (name_bound ''song.wav'') = 4"
    using name_length_precondition [of "''song.wav''" ?wb] by simp
  have "(\<forall>i < unat (name_bound ''song.wav''). i < length ''song.wav'')
      \<and> put_chars ''song.wav'' 0 ?wb = Inr (?wb\<lparr>tx := tx ?wb @ take (unat (name_bound ''song.wav'')) ''song.wav''\<rparr>)"
    using name_length_precondition [of "''song.wav''" ?wb] by simp
  with len have "3 < length ''song.wav''
      \<and> put_chars ''song.wav'' 0 ?wb = Inr (?wb\<lparr>tx := ''song''\<rparr>)"
    by simp
  with short len show ?thesis by simp
qed

end
